theory Spec2Isabelle
  imports Complex_Main
begin

section \<open>Numbers and vectors\<close>

text \<open>
  The program computes with JavaScript numbers; they are modelled as exact reals, so every
  statement below is about the arithmetic the code writes down, without rounding, NaN or
  infinities. The vector type is the \<^verbatim>\<open>Vector3\<close> of the three.js library the code
  imports; its methods are modelled by their documented meaning (component-wise
  arithmetic, Euclidean length).
\<close>

datatype vec3 = Vector3 (vx: real) (vy: real) (vz: real)

definition vadd :: "vec3 \<Rightarrow> vec3 \<Rightarrow> vec3" where
  "vadd a b = Vector3 (vx a + vx b) (vy a + vy b) (vz a + vz b)"

definition vsub :: "vec3 \<Rightarrow> vec3 \<Rightarrow> vec3" where
  "vsub a b = Vector3 (vx a - vx b) (vy a - vy b) (vz a - vz b)"

definition multiplyScalar :: "vec3 \<Rightarrow> real \<Rightarrow> vec3" where
  "multiplyScalar a s = Vector3 (vx a * s) (vy a * s) (vz a * s)"

definition divideScalar :: "vec3 \<Rightarrow> real \<Rightarrow> vec3" where
  "divideScalar a s = multiplyScalar a (1 / s)"

definition addScaledVector :: "vec3 \<Rightarrow> vec3 \<Rightarrow> real \<Rightarrow> vec3" where
  "addScaledVector a v s = Vector3 (vx a + vx v * s) (vy a + vy v * s) (vz a + vz v * s)"

definition dot :: "vec3 \<Rightarrow> vec3 \<Rightarrow> real" where
  "dot a b = vx a * vx b + vy a * vy b + vz a * vz b"

definition lengthSq :: "vec3 \<Rightarrow> real" where
  "lengthSq a = vx a * vx a + vy a * vy a + vz a * vz a"

definition vlength :: "vec3 \<Rightarrow> real" where
  "vlength a = sqrt (lengthSq a)"

definition distanceTo :: "vec3 \<Rightarrow> vec3 \<Rightarrow> real" where
  "distanceTo a b = sqrt (lengthSq (vsub a b))"

text \<open>\<^verbatim>\<open>normalize()\<close> divides by \<^verbatim>\<open>length() || 1\<close>: the zero vector stays zero.\<close>

definition normalize :: "vec3 \<Rightarrow> vec3" where
  "normalize a = divideScalar a (if vlength a = 0 then 1 else vlength a)"

definition vzero :: vec3 where
  "vzero = Vector3 0 0 0"

text \<open>\<^verbatim>\<open>THREE.MathUtils.clamp(value, min, max)\<close> is \<^verbatim>\<open>Math.max(min, Math.min(max, value))\<close>.\<close>

definition clamp :: "real \<Rightarrow> real \<Rightarrow> real \<Rightarrow> real" where
  "clamp v lo hi = max lo (min hi v)"

section \<open>Ground-plane raycast (systems/math.js)\<close>

definition UP :: vec3 where
  "UP = Vector3 0 1 0"

definition raycastGroundPlane :: "vec3 \<Rightarrow> vec3 \<Rightarrow> vec3 option" where
  "raycastGroundPlane origin dir =
     (let denom = dot dir UP in
      if \<bar>denom\<bar> < 1 / 10 ^ 6 then None
      else let t = - vy origin / denom in
           if t < 0 then None
           else Some (vadd origin (multiplyScalar dir t)))"

section \<open>Obstacles and projection of formation targets (units/unit_manager.js)\<close>

record obstacle =
  ob_id :: nat
  ob_position :: vec3
  ob_radius :: real

text \<open>
  One pass of the loop body of \<^verbatim>\<open>projectOutsideObstacles\<close>: the running point \<open>p\<close>
  is pushed to the expanded surface of \<open>ob\<close> when it is closer than
  \<open>radius + unitRadius + margin\<close>, along the direction from the centre (the fixed
  direction \<open>(1, 0, 0)\<close> when \<open>p\<close> is within \<open>1e-5\<close> of the centre).
\<close>

definition margin :: real where
  "margin = 0.2"

definition projectStep :: "real \<Rightarrow> vec3 \<Rightarrow> obstacle \<Rightarrow> vec3" where
  "projectStep unitRadius p ob =
     (let dir = vsub p (ob_position ob);
          d = vlength dir;
          limit = ob_radius ob + unitRadius + margin
      in if d < limit
         then (let dir' = (if d < 1 / 10 ^ 5 then Vector3 1 0 0 else divideScalar dir d)
               in addScaledVector (ob_position ob) dir' limit)
         else p)"

definition projectOutsideObstacles :: "vec3 \<Rightarrow> real \<Rightarrow> obstacle list \<Rightarrow> vec3" where
  "projectOutsideObstacles point unitRadius obstacles =
     foldl (projectStep unitRadius) point obstacles"

section \<open>Units and steering (units/unit.js)\<close>

text \<open>
  The fields of \<^verbatim>\<open>Unit\<close> that the simulation reads and writes. The mesh (the
  presentation object) and the orientation update that only turns the mesh are left out.
  \<open>uid\<close> is the \<^verbatim>\<open>id\<close> drawn from the module counter; it stands for object identity
  where the code compares references (\<^verbatim>\<open>n === self\<close>).
\<close>

record unit =
  uid :: nat
  position :: vec3
  velocity :: vec3
  target :: "vec3 option"
  selected :: bool
  maxSpeed :: real
  maxAccel :: real
  maxTurnRate :: real
  radius :: real
  arriveRadius :: real
  stopRadius :: real
  idleDamping :: real
  avoidLookahead :: real
  avoidMargin :: real
  maxAvoidForce :: real
  avoidWeight :: real

text \<open>The constructor with its defaults (\<^verbatim>\<open>opts = {}\<close>).\<close>

definition new_Unit :: "nat \<Rightarrow> vec3 \<Rightarrow> unit" where
  "new_Unit i pos =
     \<lparr>uid = i, position = pos, velocity = vzero, target = None, selected = False,
      maxSpeed = 10, maxAccel = 15, maxTurnRate = 2, radius = 0.8, arriveRadius = 6,
      stopRadius = 0.6, idleDamping = 0.9, avoidLookahead = 1.2, avoidMargin = 0.6,
      maxAvoidForce = 30, avoidWeight = 1.2\<rparr>"

definition setSelected :: "unit \<Rightarrow> bool \<Rightarrow> unit" where
  "setSelected u sel = u\<lparr>selected := sel\<rparr>"

definition setTarget :: "unit \<Rightarrow> vec3 option \<Rightarrow> unit" where
  "setTarget u t = u\<lparr>target := t\<rparr>"

text \<open>The body of the loop of \<^verbatim>\<open>separation\<close>, on the pair (repulse, count).\<close>

definition separation_step :: "unit \<Rightarrow> vec3 \<times> nat \<Rightarrow> unit \<Rightarrow> vec3 \<times> nat" where
  "separation_step self acc n =
     (if uid n = uid self then acc
      else let diff = vsub (position self) (position n);
               d = vlength diff;
               desired = (radius self + radius n) * 1.2
           in if d > 0 \<and> d < desired
              then (vadd (fst acc) (divideScalar diff (d * d + 1 / 10 ^ 6)), Suc (snd acc))
              else acc)"

definition separation :: "unit \<Rightarrow> unit list \<Rightarrow> real \<Rightarrow> vec3" where
  "separation self neighbors mxAccel =
     (let acc = foldl (separation_step self) (vzero, 0) neighbors;
          repulse = (if snd acc > 0 then divideScalar (fst acc) (real (snd acc)) else fst acc);
          mag = vlength repulse
      in if mag > mxAccel then multiplyScalar repulse (mxAccel / mag) else repulse)"

text \<open>
  The loop of \<^verbatim>\<open>avoidSpheres\<close> keeps the most threatening obstacle, its distance and
  the closest point; \<open>None\<close> is the initial state (\<^verbatim>\<open>mostThreat = null\<close>,
  \<^verbatim>\<open>minDist = Infinity\<close>).
\<close>

definition avoid_step ::
  "unit \<Rightarrow> vec3 \<Rightarrow> real \<Rightarrow> (obstacle \<times> real \<times> vec3) option \<Rightarrow> obstacle
     \<Rightarrow> (obstacle \<times> real \<times> vec3) option" where
  "avoid_step self forward lookDist best ob =
     (let center = ob_position ob;
          expanded = ob_radius ob + radius self + avoidMargin self;
          toCenter = vsub center (position self)
      in if dot toCenter forward < - expanded then best
         else let t = clamp (dot toCenter forward) 0 lookDist;
                  p = addScaledVector (position self) forward t;
                  d = distanceTo p center
              in if d < expanded \<and> (case best of None \<Rightarrow> True | Some (_, minDist, _) \<Rightarrow> d < minDist)
                 then Some (ob, d, p) else best)"

definition avoidSpheres :: "unit \<Rightarrow> obstacle list \<Rightarrow> vec3" where
  "avoidSpheres self obstacles =
     (let forward0 = (case target self of
                        Some tg \<Rightarrow> if lengthSq (velocity self) < 1 / 10 ^ 4
                                   then vsub tg (position self) else velocity self
                      | None \<Rightarrow> velocity self);
          speed = max 0.001 (vlength (velocity self))
      in if lengthSq forward0 < 1 / 10 ^ 6 then vzero
         else let forward = normalize forward0;
                  lookDist = max 2 (speed * avoidLookahead self + maxSpeed self * 0.25)
              in case foldl (avoid_step self forward lookDist) None obstacles of
                   None \<Rightarrow> vzero
                 | Some (mostThreat, minDist, closestPoint) \<Rightarrow>
                     let normal = vsub closestPoint (ob_position mostThreat);
                         nLen = vlength normal
                     in if nLen < 1 / 10 ^ 6 then vzero
                        else let normal' = divideScalar normal nLen;
                                 expanded = ob_radius mostThreat + radius self + avoidMargin self;
                                 penetration = max 0 (expanded - minDist);
                                 strength = clamp (penetration / expanded) 0.1 1 * maxAvoidForce self;
                                 forwardComp = dot normal' forward;
                                 avoidDir = normalize (addScaledVector normal' forward (- forwardComp))
                             in multiplyScalar avoidDir strength)"

text \<open>
  \<^verbatim>\<open>Unit.update\<close>, in its four stages. \<open>arrival\<close> returns the unit after the arrival
  branch (target cleared and velocity zeroed on arrival) with the arrival steering.
\<close>

definition arrival :: "unit \<Rightarrow> unit \<times> vec3" where
  "arrival u =
     (case target u of
        None \<Rightarrow> (u, vzero)
      | Some tg \<Rightarrow>
          let toTarget = vsub tg (position u);
              d = vlength toTarget
          in if d \<le> stopRadius u
             then (u\<lparr>velocity := vzero, target := None\<rparr>, vzero)
             else let desiredSpeed = (if d < arriveRadius u
                                      then maxSpeed u * (d / arriveRadius u) else maxSpeed u);
                      desired = multiplyScalar (multiplyScalar toTarget (1 / d)) desiredSpeed;
                      arriveSteer = vsub desired (velocity u);
                      mag = vlength arriveSteer
                  in (u, vadd vzero (if mag > maxAccel u
                                     then multiplyScalar arriveSteer (maxAccel u / mag)
                                     else arriveSteer)))"

definition steering :: "unit \<Rightarrow> vec3 \<Rightarrow> unit list \<Rightarrow> obstacle list \<Rightarrow> vec3" where
  "steering u steer0 neighbors obstacles =
     (let sepWeight = (if target u \<noteq> None then 0.9 else 0.6);
          sep = separation u neighbors (maxAccel u);
          steer1 = addScaledVector steer0 sep sepWeight
      in if obstacles \<noteq> []
         then (let avoid = avoidSpheres u obstacles
               in if lengthSq avoid > 0
                  then (let mag = vlength avoid;
                            avoid' = (if mag > maxAvoidForce u
                                      then multiplyScalar avoid (maxAvoidForce u / mag) else avoid)
                        in addScaledVector steer1 avoid' (avoidWeight u))
                  else steer1)
         else steer1)"

text \<open>
  Integration: the speed is clamped to \<open>maxSpeed\<close>, an idle unit is damped by
  \<^verbatim>\<open>Math.pow(idleDamping, Math.max(1, dt * 60))\<close> (the test \<^verbatim>\<open>speed > 0\<close> reads the
  speed measured before the clamp), and the position advances. Over the reals the rescale
  by \<open>maxSpeed / speed\<close> lands exactly on \<open>maxSpeed\<close>; the program computes the
  quotient, the three products and the length in doubles, where the rounded result can
  have a length one unit in the last place above \<open>maxSpeed\<close> (velocity \<open>(2, 12, 0)\<close>,
  target \<open>(100, 0, 0)\<close>, \<open>dt = 0.05\<close>, \<open>maxSpeed = 10\<close> gives length
  10.000000000000002). Nothing below is concluded from the exactness of the rescale: the
  properties of \<open>update\<close> proved here are about ticks on which the clamp does not fire.
\<close>

definition integrate :: "unit \<Rightarrow> vec3 \<Rightarrow> real \<Rightarrow> unit" where
  "integrate u steer dt =
     (let v1 = addScaledVector (velocity u) steer dt;
          speed = vlength v1;
          v2 = (if speed > maxSpeed u then multiplyScalar v1 (maxSpeed u / speed) else v1);
          v3 = (if target u = None \<and> speed > 0
                then multiplyScalar v2 (idleDamping u powr (max 1 (dt * 60))) else v2)
      in u\<lparr>velocity := v3, position := addScaledVector (position u) v3 dt\<rparr>)"

definition update :: "unit \<Rightarrow> real \<Rightarrow> unit list \<Rightarrow> obstacle list \<Rightarrow> unit" where
  "update u dt neighbors obstacles =
     (let (u1, steer0) = arrival u
      in integrate u1 (steering u1 steer0 neighbors obstacles) dt)"

section \<open>Formation targets (units/unit_manager.js)\<close>

datatype offset = Offset (ox: real) (oz: real)

definition goldenAngle :: real where
  "goldenAngle = pi * (3 - sqrt 5)"

definition sunflowerOffsets :: "nat \<Rightarrow> real \<Rightarrow> offset list" where
  "sunflowerOffsets n spacing =
     (let c = spacing / sqrt pi
      in map (\<lambda>k. let r = c * sqrt (real k + 0.5);
                        theta = real k * goldenAngle
                    in Offset (r * cos theta) (r * sin theta)) [0..<n])"

text \<open>
  Distances in the formation plane: between two offsets, and from an offset to the
  origin (the commanded point).
\<close>

definition offset_dist :: "offset \<Rightarrow> offset \<Rightarrow> real" where
  "offset_dist a b = sqrt ((ox a - ox b)\<^sup>2 + (oz a - oz b)\<^sup>2)"

definition offset_norm :: "offset \<Rightarrow> real" where
  "offset_norm a = sqrt ((ox a)\<^sup>2 + (oz a)\<^sup>2)"

text \<open>
  The handler that \<^verbatim>\<open>connectTo\<close> subscribes. \<open>sel\<close> holds references to the selected
  units in registry order; \<open>assignTargets\<close> writes the \<open>i\<close>-th computed target into the
  \<open>i\<close>-th selected unit of the registry, which is what \<^verbatim>\<open>sel[i].setTarget(t)\<close> does
  through the shared objects.
\<close>

fun assignTargets :: "unit list \<Rightarrow> vec3 list \<Rightarrow> unit list" where
  "assignTargets [] ts = []"
| "assignTargets (u # us) ts =
     (if selected u
      then (case ts of
              [] \<Rightarrow> u # assignTargets us []
            | t # ts' \<Rightarrow> setTarget u (Some t) # assignTargets us ts')
      else u # assignTargets us ts)"

definition formationSpacing :: "unit list \<Rightarrow> real" where
  "formationSpacing sel =
     (let avgRadius = foldl (\<lambda>s u. s + radius u) 0 sel / real (length sel)
      in max 1.2 (2 * avgRadius + 0.4))"

definition moveSelectedTo :: "vec3 \<Rightarrow> obstacle list \<Rightarrow> unit list \<Rightarrow> unit list" where
  "moveSelectedTo tgt obstacles units =
     (let sel = filter selected units
      in if length sel = 0 then units
         else let offsets = sunflowerOffsets (length sel) (formationSpacing sel);
                  ts = map (\<lambda>i. let off = offsets ! i;
                                     t = Vector3 (vx tgt + ox off) (vy tgt) (vz tgt + oz off)
                                 in projectOutsideObstacles t (radius (sel ! i)) obstacles)
                           [0..<length sel]
              in assignTargets units ts)"

section \<open>Command bus (systems/command_bus.js)\<close>

text \<open>
  A subscriber is a function object; the bus stores references to them, here numbers.
  A \<^verbatim>\<open>Set\<close> of subscribers is a list in insertion order that holds each reference at
  most once. \<open>emit\<close> returns the calls it makes, in order: pairs of the function
  invoked and the payload it receives. Subscribers that change the bus while it
  dispatches are outside this model.
\<close>

type_synonym fn_ref = nat

record 'k CommandBus =
  listeners :: "'k \<Rightarrow> fn_ref list option"

definition new_CommandBus :: "'k CommandBus" where
  "new_CommandBus = \<lparr>listeners = (\<lambda>_. None)\<rparr>"

definition set_add :: "fn_ref list \<Rightarrow> fn_ref \<Rightarrow> fn_ref list" where
  "set_add fs fn = (if fn \<in> set fs then fs else fs @ [fn])"

definition set_delete :: "fn_ref list \<Rightarrow> fn_ref \<Rightarrow> fn_ref list" where
  "set_delete fs fn = remove1 fn fs"

definition off :: "'k CommandBus \<Rightarrow> 'k \<Rightarrow> fn_ref \<Rightarrow> 'k CommandBus" where
  "off bus type fn =
     (case listeners bus type of
        None \<Rightarrow> bus
      | Some fs \<Rightarrow> bus\<lparr>listeners := (listeners bus)(type \<mapsto> set_delete fs fn)\<rparr>)"

text \<open>\<open>on\<close> returns the new bus and the unsubscribe handle, a closure over \<open>type\<close> and \<open>fn\<close>.\<close>

definition on ::
  "'k CommandBus \<Rightarrow> 'k \<Rightarrow> fn_ref \<Rightarrow> 'k CommandBus \<times> ('k CommandBus \<Rightarrow> 'k CommandBus)" where
  "on bus type fn =
     (let fs = (case listeners bus type of None \<Rightarrow> [] | Some fs \<Rightarrow> fs)
      in (bus\<lparr>listeners := (listeners bus)(type \<mapsto> set_add fs fn)\<rparr>,
          (\<lambda>b. off b type fn)))"

definition emit :: "'k CommandBus \<Rightarrow> 'k \<Rightarrow> 'p \<Rightarrow> (fn_ref \<times> 'p) list" where
  "emit bus type payload =
     (case listeners bus type of
        None \<Rightarrow> []
      | Some fs \<Rightarrow> map (\<lambda>fn. (fn, payload)) fs)"

text \<open>The bus invariant: every subscriber set holds each reference once.\<close>

definition bus_ok :: "'k CommandBus \<Rightarrow> bool" where
  "bus_ok bus = (\<forall>t fs. listeners bus t = Some fs \<longrightarrow> distinct fs)"

text \<open>Other traffic on the bus: subscriptions and unsubscriptions, applied in order.\<close>

datatype 'k bus_op = On 'k fn_ref | Off 'k fn_ref

fun bus_step :: "'k CommandBus \<Rightarrow> 'k bus_op \<Rightarrow> 'k CommandBus" where
  "bus_step bus (On t f) = fst (on bus t f)"
| "bus_step bus (Off t f) = off bus t f"

definition bus_run :: "'k CommandBus \<Rightarrow> 'k bus_op list \<Rightarrow> 'k CommandBus" where
  "bus_run bus ops = foldl bus_step bus ops"

text \<open>Whether a function is currently in the subscriber set of a command type.\<close>

definition subscribed :: "'k CommandBus \<Rightarrow> 'k \<Rightarrow> fn_ref \<Rightarrow> bool" where
  "subscribed bus type fn =
     (case listeners bus type of None \<Rightarrow> False | Some fs \<Rightarrow> fn \<in> set fs)"

text \<open>How often a function is invoked in a list of calls.\<close>

definition invocations :: "fn_ref \<Rightarrow> (fn_ref \<times> 'p) list \<Rightarrow> nat" where
  "invocations fn calls = length (filter (\<lambda>c. fst c = fn) calls)"

section \<open>Input system (systems/input.js)\<close>

text \<open>
  The state of \<^verbatim>\<open>InputSystem\<close> that selection, the move command and manual rotation
  use, with the unit manager's registry and obstacles, the camera position and the orbit
  controls' target and enabled flag. Gizmos, the HUD and the event's default handling are
  presentation and left out; the update call of the external orbit controls is not
  modelled. The second version of the file (with edge scrolling and logging) has the same
  code for the end of a selection and for manual rotation; its pan branch also records a
  drag.
\<close>

record spherical =
  sph_r :: real
  sph_theta :: real
  sph_phi :: real

record pointer_event =
  button :: int
  ctrlKey :: bool
  clientX :: real
  clientY :: real
  movementX :: real
  movementY :: real

record InputSystem =
  cursor :: vec3
  cursorHeight :: real
  isSelecting :: bool
  selectCenter :: vec3
  selectRadius :: real
  rmbDown :: bool
  rmbDragged :: bool
  suppressRmbClick :: bool
  blockSelectionUntilPointerUp :: bool
  pointerLocked :: bool
  lastClientX :: real
  lastClientY :: real
  rotateActive :: bool
  rotateSpeed :: real
  rotateTarget :: vec3
  sphericalState :: spherical
  camera_position :: vec3
  controls_target :: vec3
  controls_enabled :: bool
  units :: "unit list"
  obstacles :: "obstacle list"

text \<open>
  The constructor's initial state, for a camera position, a registry and obstacles.
\<close>

definition new_InputSystem :: "vec3 \<Rightarrow> unit list \<Rightarrow> obstacle list \<Rightarrow> InputSystem" where
  "new_InputSystem cam us obs =
     \<lparr>cursor = Vector3 0 0 0, cursorHeight = 0, isSelecting = False,
      selectCenter = Vector3 0 0 0, selectRadius = 0, rmbDown = False, rmbDragged = False,
      suppressRmbClick = False, blockSelectionUntilPointerUp = False, pointerLocked = False,
      lastClientX = 0, lastClientY = 0, rotateActive = False, rotateSpeed = 0.006,
      rotateTarget = Vector3 0 0 0,
      sphericalState = \<lparr>sph_r = 1, sph_theta = 0, sph_phi = 0\<rparr>,
      camera_position = cam, controls_target = Vector3 0 0 0, controls_enabled = True,
      units = us, obstacles = obs\<rparr>"

text \<open>
  \<^verbatim>\<open>commandBus.emit(CMD.MOVE_SELECTED_TO, { target })\<close>: the only subscriber in the
  program is the unit manager's handler, connected in the constructor.
\<close>

definition emit_MOVE_SELECTED_TO :: "vec3 \<Rightarrow> InputSystem \<Rightarrow> InputSystem" where
  "emit_MOVE_SELECTED_TO tgt s = s\<lparr>units := moveSelectedTo tgt (obstacles s) (units s)\<rparr>"

definition onMouseUp :: "pointer_event \<Rightarrow> InputSystem \<Rightarrow> InputSystem" where
  "onMouseUp e s =
     (let s1 = (if isSelecting s \<and> button e = 0
                then s\<lparr>isSelecting := False, controls_enabled := True,
                       units := map (\<lambda>u. let d = distanceTo (position u) (selectCenter s);
                                              sel = (d \<le> selectRadius s)
                                          in setSelected u sel) (units s)\<rparr>
                else s)
      in if button e = 2 \<and> rmbDown s1
         then (let s2 = (if \<not> rmbDragged s1 \<and> \<not> ctrlKey e \<and> \<not> suppressRmbClick s1
                         then emit_MOVE_SELECTED_TO
                                (Vector3 (vx (cursor s1)) (cursorHeight s1) (vz (cursor s1))) s1
                         else s1)
               in s2\<lparr>rmbDown := False, rmbDragged := False, suppressRmbClick := False,
                     blockSelectionUntilPointerUp := False\<rparr>)
         else s1)"

definition eps :: real where
  "eps = 0.001"

text \<open>
  \<^verbatim>\<open>onPointerMove\<close>. \<open>camDir\<close> is the camera's world direction, which the pan branch
  reads from the renderer's camera.
\<close>

definition onPointerMove :: "vec3 \<Rightarrow> pointer_event \<Rightarrow> InputSystem \<Rightarrow> InputSystem" where
  "onPointerMove camDir e s =
     (let dx = (if pointerLocked s then movementX e else clientX e - lastClientX s);
          dy = (if pointerLocked s then movementY e else clientY e - lastClientY s);
          s0 = (if pointerLocked s then s
                else s\<lparr>lastClientX := clientX e, lastClientY := clientY e\<rparr>)
      in if rotateActive s0
         then (let speed = rotateSpeed s0;
                   theta = sph_theta (sphericalState s0) - dx * speed;
                   phi = clamp (sph_phi (sphericalState s0) - dy * speed) eps (pi - eps);
                   tg = rotateTarget s0;
                   r = sph_r (sphericalState s0);
                   st = sin phi;
                   x = r * sin theta * st;
                   y = r * cos phi;
                   z = r * cos theta * st
               in s0\<lparr>sphericalState := \<lparr>sph_r = r, sph_theta = theta, sph_phi = phi\<rparr>,
                     camera_position := Vector3 (vx tg + x) (vy tg + y) (vz tg + z),
                     controls_target := tg\<rparr>)
         else if pointerLocked s0 \<and> rmbDown s0
         then (let dist = distanceTo (camera_position s0) (controls_target s0);
                   panScale = max 0.0015 (min 0.015 (dist * 0.0045));
                   right = normalize (Vector3 (vy camDir * 0 - vz camDir * 1)
                                              (vz camDir * 0 - vx camDir * 0)
                                              (vx camDir * 1 - vy camDir * 0));
                   forwardXZ = normalize (Vector3 (vx camDir) 0 (vz camDir));
                   move = addScaledVector (addScaledVector vzero right (- dx * panScale))
                                          forwardXZ (dy * panScale)
               in s0\<lparr>camera_position := vadd (camera_position s0) move,
                     controls_target := vadd (controls_target s0) move\<rparr>)
         else s0)"

text \<open>A drag gesture: pointer-move events applied in order.\<close>

definition drag :: "vec3 \<Rightarrow> pointer_event list \<Rightarrow> InputSystem \<Rightarrow> InputSystem" where
  "drag camDir es s = foldl (\<lambda>st e. onPointerMove camDir e st) s es"

section \<open>Properties\<close>

lemma lengthSq_nonneg: "0 \<le> lengthSq a"
  by (simp add: lengthSq_def)

lemma vlength_nonneg: "0 \<le> vlength a"
  by (simp add: vlength_def lengthSq_nonneg)

lemma vlength_axis: "vlength (Vector3 a 0 0) = \<bar>a\<bar>"
  by (simp add: vlength_def lengthSq_def)

text \<open>
  C5. The ground-plane raycast from \<open>(0, 5, 0)\<close> straight down hits \<open>(0, 0, 0)\<close>; straight
  up it returns none; and in general it returns none exactly when the direction is
  nearly parallel to the plane (\<open>|dir \<cdot> up| < 1e-6\<close>) or the intersection parameter
  \<open>t = -origin.y / (dir \<cdot> up)\<close> is negative.
\<close>

theorem raycastGroundPlane_spec:
  "raycastGroundPlane (Vector3 0 5 0) (Vector3 0 (-1) 0) = Some (Vector3 0 0 0) \<and>
   raycastGroundPlane (Vector3 0 5 0) (Vector3 0 1 0) = None \<and>
   (raycastGroundPlane origin dir = None) =
     (\<bar>dot dir UP\<bar> < 1 / 10 ^ 6 \<or> - vy origin / dot dir UP < 0)"
  by (simp add: raycastGroundPlane_def Let_def dot_def UP_def vadd_def multiplyScalar_def)

subsection \<open>Helper facts\<close>

lemma distanceTo_axis: "distanceTo (Vector3 a 0 0) (Vector3 b 0 0) = \<bar>a - b\<bar>"
  by (simp add: distanceTo_def vsub_def lengthSq_def)

lemma vlength_multiplyScalar: "vlength (multiplyScalar v s) = \<bar>s\<bar> * vlength v"
proof -
  have "lengthSq (multiplyScalar v s) = s\<^sup>2 * lengthSq v"
    by (simp add: lengthSq_def multiplyScalar_def power2_eq_square algebra_simps)
  then show ?thesis
    by (simp add: vlength_def real_sqrt_mult)
qed


subsection \<open>Selection\<close>

text \<open>
  C1. When a selection gesture ends (the primary button goes up while selecting), the
  registry keeps its units in place, and each unit's selected flag becomes the truth value of
  "the distance from the unit's position to the frozen centre is at most the final
  radius", whatever the flag was before; nothing else of a unit changes. The comparison
  is \<open>\<le>\<close>, so a unit at distance exactly the radius is selected.
\<close>

theorem onMouseUp_selection:
  assumes "isSelecting s" "button e = 0"
  shows "length (units (onMouseUp e s)) = length (units s) \<and>
         (\<forall>i < length (units s).
            selected (units (onMouseUp e s) ! i) =
              (distanceTo (position (units s ! i)) (selectCenter s) \<le> selectRadius s) \<and>
            units (onMouseUp e s) ! i =
              (units s ! i)\<lparr>selected := selected (units (onMouseUp e s) ! i)\<rparr>)"
  using assms by (simp add: onMouseUp_def Let_def setSelected_def)

text \<open>
  The theorem at a concrete gesture of radius 3: an unselected unit at distance exactly 3
  becomes selected, a selected unit at distance 5 loses its flag.
\<close>

theorem onMouseUp_selection_witness:
  "isSelecting ((new_InputSystem (Vector3 40 30 40)
        [new_Unit 1 (Vector3 3 0 0), (new_Unit 2 (Vector3 5 0 0))\<lparr>selected := True\<rparr>] [])
        \<lparr>isSelecting := True, selectRadius := 3\<rparr>) \<and>
   button \<lparr>button = 0, ctrlKey = False, clientX = 0, clientY = 0, movementX = 0, movementY = 0\<rparr> = 0 \<and>
   selected (units (onMouseUp
       \<lparr>button = 0, ctrlKey = False, clientX = 0, clientY = 0, movementX = 0, movementY = 0\<rparr>
       ((new_InputSystem (Vector3 40 30 40)
        [new_Unit 1 (Vector3 3 0 0), (new_Unit 2 (Vector3 5 0 0))\<lparr>selected := True\<rparr>] [])
        \<lparr>isSelecting := True, selectRadius := 3\<rparr>)) ! 0) \<and>
   \<not> selected (units (onMouseUp
       \<lparr>button = 0, ctrlKey = False, clientX = 0, clientY = 0, movementX = 0, movementY = 0\<rparr>
       ((new_InputSystem (Vector3 40 30 40)
        [new_Unit 1 (Vector3 3 0 0), (new_Unit 2 (Vector3 5 0 0))\<lparr>selected := True\<rparr>] [])
        \<lparr>isSelecting := True, selectRadius := 3\<rparr>)) ! 1)"
proof -
  let ?s = "(new_InputSystem (Vector3 40 30 40)
        [new_Unit 1 (Vector3 3 0 0), (new_Unit 2 (Vector3 5 0 0))\<lparr>selected := True\<rparr>] [])
        \<lparr>isSelecting := True, selectRadius := 3\<rparr>"
  let ?e = "\<lparr>button = 0, ctrlKey = False, clientX = 0, clientY = 0, movementX = 0, movementY = 0\<rparr>"
  have h1: "isSelecting ?s" by (simp add: new_InputSystem_def)
  have h2: "button ?e = 0" by simp
  have len: "0 < length (units ?s)" "1 < length (units ?s)"
    by (simp_all add: new_InputSystem_def)
  have d0: "distanceTo (position (units ?s ! 0)) (selectCenter ?s) \<le> selectRadius ?s"
    by (simp add: new_InputSystem_def new_Unit_def distanceTo_axis)
  have d1: "\<not> distanceTo (position (units ?s ! 1)) (selectCenter ?s) \<le> selectRadius ?s"
    by (simp add: new_InputSystem_def new_Unit_def distanceTo_axis)
  have all: "\<forall>i < length (units ?s). selected (units (onMouseUp ?e ?s) ! i) =
              (distanceTo (position (units ?s ! i)) (selectCenter ?s) \<le> selectRadius ?s)"
    using onMouseUp_selection [OF h1 h2] by blast
  have "selected (units (onMouseUp ?e ?s) ! 0)"
    using all len(1) d0 by blast
  moreover have "\<not> selected (units (onMouseUp ?e ?s) ! 1)"
    using all len(2) d1 by blast
  ultimately show ?thesis using h1 h2 by blast
qed

subsection \<open>Steering\<close>











text \<open>
  On the same input the position moves as well: the proviso of the theorem above is
  needed for the position at the end of the tick too.
\<close>

lemma update_arrival_position_moves:
  "position (update ((new_Unit 1 (Vector3 0 0 0))\<lparr>target := Some (Vector3 0.5 0 0)\<rparr>) 0.05
               [(new_Unit 1 (Vector3 0 0 0))\<lparr>target := Some (Vector3 0.5 0 0)\<rparr>,
                new_Unit 2 (Vector3 1 0 0)] [])
     \<noteq> Vector3 0 0 0"
  by (simp add: new_Unit_def distanceTo_axis update_def arrival_def Let_def vsub_def vlength_axis
      steering_def separation_def separation_step_def vzero_def integrate_def
      addScaledVector_def vadd_def divideScalar_def multiplyScalar_def)

subsection \<open>Move command\<close>

lemma moveSelectedTo_noop:
  assumes "\<forall>u \<in> set us. \<not> selected u"
  shows "moveSelectedTo tgt obs us = us"
proof -
  have "filter selected us = []" using assms by (simp add: filter_empty_conv)
  then show ?thesis by (simp add: moveSelectedTo_def)
qed

text \<open>
  C8. A MoveSelectedTo command dispatched while no unit is selected changes nothing: the
  handler returns the registry as it was, so no unit's target, position, velocity or
  selected flag changes, and the whole state after the emit is the state before.
\<close>

theorem moveSelectedTo_none_selected:
  assumes "\<forall>u \<in> set (units s). \<not> selected u"
  shows "moveSelectedTo tgt obs (units s) = units s \<and> emit_MOVE_SELECTED_TO tgt s = s"
  using moveSelectedTo_noop [OF assms] by (simp add: emit_MOVE_SELECTED_TO_def)

text \<open>Three units, none selected, Move to \<open>(10, 0, 10)\<close>.\<close>

theorem moveSelectedTo_none_selected_witness:
  "filter selected (units (new_InputSystem (Vector3 40 30 40)
        [new_Unit 1 (Vector3 0 0 0), new_Unit 2 (Vector3 2 0 0), new_Unit 3 (Vector3 4 0 0)] []))
     = [] \<and>
   emit_MOVE_SELECTED_TO (Vector3 10 0 10) (new_InputSystem (Vector3 40 30 40)
        [new_Unit 1 (Vector3 0 0 0), new_Unit 2 (Vector3 2 0 0), new_Unit 3 (Vector3 4 0 0)] [])
     = new_InputSystem (Vector3 40 30 40)
        [new_Unit 1 (Vector3 0 0 0), new_Unit 2 (Vector3 2 0 0), new_Unit 3 (Vector3 4 0 0)] []"
proof -
  have h: "\<forall>u \<in> set (units (new_InputSystem (Vector3 40 30 40)
        [new_Unit 1 (Vector3 0 0 0), new_Unit 2 (Vector3 2 0 0), new_Unit 3 (Vector3 4 0 0)] [])).
      \<not> selected u"
    by (simp add: new_InputSystem_def new_Unit_def)
  then have "filter selected (units (new_InputSystem (Vector3 40 30 40)
        [new_Unit 1 (Vector3 0 0 0), new_Unit 2 (Vector3 2 0 0), new_Unit 3 (Vector3 4 0 0)] []))
     = []"
    by (simp add: filter_empty_conv)
  with moveSelectedTo_none_selected [OF h] show ?thesis by blast
qed

subsection \<open>Obstacle projection\<close>

lemma projectStep_safe:
  "ob_radius ob + r + margin \<le> distanceTo p (ob_position ob) \<Longrightarrow> projectStep r p ob = p"
  by (simp add: projectStep_def Let_def distanceTo_def vlength_def)

text \<open>
  C10. Projection is the identity on safe points: a point whose distance to every
  obstacle's centre is at least that obstacle's radius + unitRadius + 0.2 is returned
  unchanged.
\<close>

theorem projectOutsideObstacles_identity_on_safe:
  assumes "\<forall>ob \<in> set obs. ob_radius ob + unitRadius + 0.2 \<le> distanceTo point (ob_position ob)"
  shows "projectOutsideObstacles point unitRadius obs = point"
  using assms unfolding projectOutsideObstacles_def
  by (induction obs) (simp_all add: projectStep_safe margin_def)

theorem projectOutsideObstacles_identity_on_safe_witness:
  "ob_radius \<lparr>ob_id = 1, ob_position = Vector3 0 0 0, ob_radius = 1\<rparr> + 0.8 + 0.2
     \<le> distanceTo (Vector3 3 0 0) (ob_position \<lparr>ob_id = 1, ob_position = Vector3 0 0 0, ob_radius = 1\<rparr>) \<and>
   projectOutsideObstacles (Vector3 3 0 0) 0.8
      [\<lparr>ob_id = 1, ob_position = Vector3 0 0 0, ob_radius = 1\<rparr>] = Vector3 3 0 0"
proof -
  have h: "\<forall>ob \<in> set [\<lparr>ob_id = 1, ob_position = Vector3 0 0 0, ob_radius = 1\<rparr>].
      ob_radius ob + 0.8 + 0.2 \<le> distanceTo (Vector3 3 0 0) (ob_position ob)"
    by (simp add: distanceTo_axis)
  from projectOutsideObstacles_identity_on_safe [OF h] h show ?thesis by simp
qed

lemma distanceTo_vlength: "distanceTo a b = vlength (vsub a b)"
  by (simp add: distanceTo_def vlength_def)

lemma vsub_addScaledVector: "vsub (addScaledVector c v s) c = multiplyScalar v s"
  by (simp add: vsub_def addScaledVector_def multiplyScalar_def)

lemma vlength_unit_direction:
  assumes "0 < vlength v"
  shows "vlength (divideScalar v (vlength v)) = 1"
  using assms by (simp add: divideScalar_def vlength_multiplyScalar)

text \<open>
  One pass of the loop leaves the point outside the expanded radius of the obstacle it
  visits, and a point at the centre lands at exactly that radius.
\<close>

lemma projectStep_outside:
  "ob_radius ob + r + margin \<le> distanceTo (projectStep r p ob) (ob_position ob)"
proof -
  define d where "d = vlength (vsub p (ob_position ob))"
  define limit where "limit = ob_radius ob + r + margin"
  show ?thesis
  proof (cases "d < limit")
    case False
    then show ?thesis
      by (simp add: projectStep_def Let_def distanceTo_vlength d_def limit_def)
  next
    case True
    have "0 \<le> d" by (simp add: d_def vlength_nonneg)
    with True have lim: "0 < limit" by simp
    show ?thesis
    proof (cases "d < 1 / 10 ^ 5")
      case True
      with \<open>d < limit\<close> have "projectStep r p ob = addScaledVector (ob_position ob) (Vector3 1 0 0) limit"
        by (simp add: projectStep_def Let_def d_def limit_def)
      then show ?thesis using lim
        by (simp add: distanceTo_vlength vsub_addScaledVector vlength_multiplyScalar
            vlength_axis limit_def)
    next
      case False
      then have pos: "0 < vlength (vsub p (ob_position ob))" by (simp add: d_def)
      from False \<open>d < limit\<close>
      have "projectStep r p ob =
              addScaledVector (ob_position ob) (divideScalar (vsub p (ob_position ob)) d) limit"
        by (simp add: projectStep_def Let_def d_def limit_def)
      then show ?thesis using lim vlength_unit_direction [OF pos]
        by (simp add: distanceTo_vlength vsub_addScaledVector vlength_multiplyScalar
            limit_def d_def)
    qed
  qed
qed

lemma projectOutsideObstacles_centre:
  assumes "0 < ob_radius ob + r + margin"
  shows "distanceTo (projectOutsideObstacles (ob_position ob) r [ob]) (ob_position ob)
           = ob_radius ob + r + margin"
  using assms
  by (simp add: projectOutsideObstacles_def projectStep_def Let_def vsub_def vlength_def
      lengthSq_def distanceTo_def addScaledVector_def)

lemma projectOutsideObstacles_last:
  "ob_radius ob + r + margin
     \<le> distanceTo (projectOutsideObstacles p r (obs @ [ob])) (ob_position ob)"
  by (simp add: projectOutsideObstacles_def projectStep_outside)

text \<open>
  C4 at a failing input. With one obstacle the two lemmas above give what the claim says.
  With several, the obstacles are visited once, in order, and a push out of a later
  obstacle is not checked against the earlier ones. With two disjoint obstacles of
  radius 1 centred at \<open>(0, 0, 0)\<close> and \<open>(2.5, 0, 0)\<close> and a unit of radius 0.8, the
  candidate \<open>(0.5, 0, 0)\<close> is pushed out of the first to \<open>(2, 0, 0)\<close>, then out of the
  second back to \<open>(0.5, 0, 0)\<close>: the returned point lies inside the first obstacle itself.
\<close>

theorem projectOutsideObstacles_reenters:
  "projectOutsideObstacles (Vector3 0.5 0 0) 0.8
     [\<lparr>ob_id = 1, ob_position = Vector3 0 0 0, ob_radius = 1\<rparr>,
      \<lparr>ob_id = 2, ob_position = Vector3 2.5 0 0, ob_radius = 1\<rparr>] = Vector3 0.5 0 0 \<and>
   distanceTo (Vector3 0.5 0 0) (Vector3 0 0 0) < 1"
  by (simp add: projectOutsideObstacles_def projectStep_def Let_def vsub_def vlength_axis margin_def
      divideScalar_def multiplyScalar_def addScaledVector_def distanceTo_def
      vlength_axis [unfolded vlength_def])

subsection \<open>Manual rotation\<close>

lemma eps_le_pi: "eps \<le> pi - eps"
  using pi_ge_two by (simp add: eps_def)

lemma clamp_range: "lo \<le> hi \<Longrightarrow> lo \<le> clamp v lo hi \<and> clamp v lo hi \<le> hi"
  by (simp add: clamp_def)

lemma onPointerMove_rotateActive: "rotateActive (onPointerMove c e s) = rotateActive s"
  by (simp add: onPointerMove_def Let_def)

lemma onPointerMove_phi:
  assumes "rotateActive s"
  shows "eps \<le> sph_phi (sphericalState (onPointerMove c e s)) \<and>
         sph_phi (sphericalState (onPointerMove c e s)) \<le> pi - eps"
  using assms clamp_range [OF eps_le_pi] by (simp add: onPointerMove_def Let_def)

lemma drag_snoc: "drag c (es @ [e]) s = onPointerMove c e (drag c es s)"
  by (simp add: drag_def)

lemma drag_rotateActive: "rotateActive (drag c es s) = rotateActive s"
  by (induction es rule: rev_induct) (simp_all add: drag_def onPointerMove_rotateActive)

text \<open>
  C7, as the code has it. During a manual rotation, after every pointer-move event of any
  sequence of drags, from any state in which the rotation is active, the pitch \<open>phi\<close> lies
  in the closed interval \<open>[\<epsilon>, \<pi> - \<epsilon>]\<close> with \<open>\<epsilon> = 0.001\<close>: the clamp
  includes both ends.
\<close>

theorem drag_phi_within_closed_range:
  assumes "rotateActive s" "es \<noteq> []"
  shows "eps \<le> sph_phi (sphericalState (drag c es s)) \<and>
         sph_phi (sphericalState (drag c es s)) \<le> pi - eps"
proof -
  obtain es' e where es: "es = es' @ [e]"
    using assms(2) by (cases es rule: rev_cases) auto
  have "rotateActive (drag c es' s)"
    using assms(1) by (simp add: drag_rotateActive)
  then show ?thesis
    unfolding es drag_snoc by (rule onPointerMove_phi)
qed

theorem drag_phi_within_closed_range_witness:
  "rotateActive ((new_InputSystem (Vector3 40 30 40) [] [])
       \<lparr>rotateActive := True, sphericalState := \<lparr>sph_r = 50, sph_theta = 0, sph_phi = 1\<rparr>\<rparr>) \<and>
   eps \<le> sph_phi (sphericalState (drag (Vector3 0 0 (-1))
      [\<lparr>button = 2, ctrlKey = True, clientX = 3, clientY = 10, movementX = 0, movementY = 0\<rparr>,
       \<lparr>button = 2, ctrlKey = True, clientX = 5, clientY = -2000, movementX = 0, movementY = 0\<rparr>]
      ((new_InputSystem (Vector3 40 30 40) [] [])
       \<lparr>rotateActive := True, sphericalState := \<lparr>sph_r = 50, sph_theta = 0, sph_phi = 1\<rparr>\<rparr>))) \<and>
   sph_phi (sphericalState (drag (Vector3 0 0 (-1))
      [\<lparr>button = 2, ctrlKey = True, clientX = 3, clientY = 10, movementX = 0, movementY = 0\<rparr>,
       \<lparr>button = 2, ctrlKey = True, clientX = 5, clientY = -2000, movementX = 0, movementY = 0\<rparr>]
      ((new_InputSystem (Vector3 40 30 40) [] [])
       \<lparr>rotateActive := True, sphericalState := \<lparr>sph_r = 50, sph_theta = 0, sph_phi = 1\<rparr>\<rparr>))) \<le> pi - eps"
proof -
  let ?s = "(new_InputSystem (Vector3 40 30 40) [] [])
       \<lparr>rotateActive := True, sphericalState := \<lparr>sph_r = 50, sph_theta = 0, sph_phi = 1\<rparr>\<rparr>"
  let ?es = "[\<lparr>button = 2, ctrlKey = True, clientX = 3, clientY = 10, movementX = 0, movementY = 0\<rparr>,
       \<lparr>button = 2, ctrlKey = True, clientX = 5, clientY = -2000, movementX = 0, movementY = 0\<rparr>]"
  have h1: "rotateActive ?s" by simp
  have h2: "?es \<noteq> []" by simp
  from drag_phi_within_closed_range [OF h1 h2] h1 show ?thesis by blast
qed

text \<open>
  C7, as stated, fails: the pitch does reach a boundary. From pitch 1, strictly inside
  the interval, one drag of 1000 pixels downwards asks for the pitch \<open>1 - 6\<close>, and the
  clamp returns \<open>\<epsilon>\<close> itself.
\<close>

theorem drag_phi_reaches_boundary:
  "rotateActive ((new_InputSystem (Vector3 40 30 40) [] [])
       \<lparr>rotateActive := True, sphericalState := \<lparr>sph_r = 50, sph_theta = 0, sph_phi = 1\<rparr>\<rparr>) \<and>
   eps < sph_phi (sphericalState ((new_InputSystem (Vector3 40 30 40) [] [])
       \<lparr>rotateActive := True, sphericalState := \<lparr>sph_r = 50, sph_theta = 0, sph_phi = 1\<rparr>\<rparr>)) \<and>
   sph_phi (sphericalState ((new_InputSystem (Vector3 40 30 40) [] [])
       \<lparr>rotateActive := True, sphericalState := \<lparr>sph_r = 50, sph_theta = 0, sph_phi = 1\<rparr>\<rparr>)) < pi - eps \<and>
   sph_phi (sphericalState (drag (Vector3 0 0 (-1))
      [\<lparr>button = 2, ctrlKey = True, clientX = 0, clientY = 1000, movementX = 0, movementY = 0\<rparr>]
      ((new_InputSystem (Vector3 40 30 40) [] [])
       \<lparr>rotateActive := True, sphericalState := \<lparr>sph_r = 50, sph_theta = 0, sph_phi = 1\<rparr>\<rparr>))) = eps"
proof -
  have "(2::real) \<le> pi" by (rule pi_ge_two)
  then show ?thesis
    by (simp add: drag_def onPointerMove_def Let_def new_InputSystem_def clamp_def eps_def)
qed

text \<open>
  The other boundary is reached the same way: a drag of 1000 pixels upwards from pitch 1
  asks for \<open>1 + 6\<close> and the clamp returns \<open>\<pi> - \<epsilon>\<close>.
\<close>

lemma drag_phi_reaches_upper_boundary:
  "sph_phi (sphericalState (drag (Vector3 0 0 (-1))
      [\<lparr>button = 2, ctrlKey = True, clientX = 0, clientY = -1000, movementX = 0, movementY = 0\<rparr>]
      ((new_InputSystem (Vector3 40 30 40) [] [])
       \<lparr>rotateActive := True, sphericalState := \<lparr>sph_r = 50, sph_theta = 0, sph_phi = 1\<rparr>\<rparr>))) = pi - eps"
proof -
  have "pi < 4" by (rule pi_less_4)
  moreover have "(2::real) \<le> pi" by (rule pi_ge_two)
  ultimately show ?thesis
    by (simp add: drag_def onPointerMove_def Let_def new_InputSystem_def clamp_def eps_def)
qed

subsection \<open>Command bus\<close>

lemma bus_ok_new: "bus_ok new_CommandBus"
  by (simp add: bus_ok_def new_CommandBus_def)

lemma bus_ok_on: "bus_ok bus \<Longrightarrow> bus_ok (fst (on bus t fn))"
  by (auto simp: bus_ok_def on_def set_add_def split: option.splits if_splits)

lemma bus_ok_off: "bus_ok bus \<Longrightarrow> bus_ok (off bus t fn)"
  by (auto simp: bus_ok_def off_def set_delete_def split: option.splits if_splits)

lemma bus_ok_step: "bus_ok bus \<Longrightarrow> bus_ok (bus_step bus op)"
  by (cases op) (simp_all add: bus_ok_on bus_ok_off)

lemma bus_ok_run: "bus_ok bus \<Longrightarrow> bus_ok (bus_run bus ops)"
  unfolding bus_run_def by (induction ops arbitrary: bus) (simp_all add: bus_ok_step)

lemma subscribed_on: "subscribed (fst (on bus t fn)) t fn"
  by (simp add: subscribed_def on_def set_add_def split: option.splits)

lemma subscribed_off: "bus_ok bus \<Longrightarrow> \<not> subscribed (off bus t fn) t fn"
  by (auto simp: subscribed_def off_def set_delete_def bus_ok_def split: option.splits)

lemma subscribed_step_keeps:
  "subscribed bus t fn \<Longrightarrow> op \<noteq> Off t fn \<Longrightarrow> subscribed (bus_step bus op) t fn"
  by (cases op)
     (auto simp: subscribed_def on_def off_def set_add_def set_delete_def
           split: option.splits if_splits)

lemma subscribed_step_stays_out:
  "\<not> subscribed bus t fn \<Longrightarrow> op \<noteq> On t fn \<Longrightarrow> \<not> subscribed (bus_step bus op) t fn"
  by (cases op)
     (auto simp: subscribed_def on_def off_def set_add_def set_delete_def
           split: option.splits if_splits dest: notin_set_remove1)

lemma bus_run_Cons: "bus_run bus (op # ops) = bus_run (bus_step bus op) ops"
  by (simp add: bus_run_def)

lemma subscribed_run_keeps:
  "subscribed bus t fn \<Longrightarrow> Off t fn \<notin> set ops \<Longrightarrow> subscribed (bus_run bus ops) t fn"
proof (induction ops arbitrary: bus)
  case Nil
  then show ?case by (simp add: bus_run_def)
next
  case (Cons op ops)
  from Cons.prems(2) have "op \<noteq> Off t fn" and rest: "Off t fn \<notin> set ops" by auto
  with Cons.prems(1) have "subscribed (bus_step bus op) t fn"
    by (simp add: subscribed_step_keeps)
  then show ?case
    unfolding bus_run_Cons using rest by (rule Cons.IH)
qed

lemma subscribed_run_stays_out:
  "\<not> subscribed bus t fn \<Longrightarrow> On t fn \<notin> set ops \<Longrightarrow> \<not> subscribed (bus_run bus ops) t fn"
proof (induction ops arbitrary: bus)
  case Nil
  then show ?case by (simp add: bus_run_def)
next
  case (Cons op ops)
  from Cons.prems(2) have "op \<noteq> On t fn" and rest: "On t fn \<notin> set ops" by auto
  with Cons.prems(1) have "\<not> subscribed (bus_step bus op) t fn"
    by (simp add: subscribed_step_stays_out)
  then show ?case
    unfolding bus_run_Cons using rest by (rule Cons.IH)
qed

lemma filter_eq_distinct: "distinct fs \<Longrightarrow> length (filter (\<lambda>f. f = fn) fs) = (if fn \<in> set fs then 1 else 0)"
  by (induction fs) auto

lemma invocations_emit:
  assumes "bus_ok bus"
  shows "invocations fn (emit bus t p) = (if subscribed bus t fn then 1 else 0)"
proof (cases "listeners bus t")
  case None
  then show ?thesis by (simp add: invocations_def emit_def subscribed_def)
next
  case (Some fs)
  then have "distinct fs" using assms by (simp add: bus_ok_def)
  then show ?thesis
    using Some by (simp add: invocations_def emit_def subscribed_def filter_map o_def filter_eq_distinct)
qed

lemma emit_payload: "subscribed bus t fn \<Longrightarrow> (fn, p) \<in> set (emit bus t p)"
  by (auto simp: subscribed_def emit_def split: option.splits)

lemma emit_payload_only: "map snd (emit bus t p) = replicate (length (emit bus t p)) p"
  by (simp add: emit_def map_replicate_const o_def split: option.splits)

text \<open>
  C9. On a bus whose subscriber sets hold each function once (as every bus built from
  the constructor by \<open>on\<close> and \<open>off\<close> does), \<open>on type fn\<close> returns a handle such
  that: (a) after any further subscriptions and unsubscriptions other than the
  unsubscription of \<open>fn\<close> from \<open>type\<close>, an emit of \<open>type\<close> with a payload invokes
  \<open>fn\<close> exactly once, with that payload, and every call of the emit carries that
  payload; (b) once the handle has been invoked, and as long as \<open>fn\<close> is not subscribed
  to \<open>type\<close> again, an emit of \<open>type\<close> does not invoke \<open>fn\<close>. The calls are the value
  of \<open>emit\<close>: they are made before it returns.
\<close>

theorem CommandBus_roundtrip:
  assumes "bus_ok bus"
    and "on bus t fn = (bus1, unsubscribe)"
    and "Off t fn \<notin> set ops1"
    and "On t fn \<notin> set ops2"
  shows "invocations fn (emit (bus_run bus1 ops1) t p) = 1 \<and>
         (fn, p) \<in> set (emit (bus_run bus1 ops1) t p) \<and>
         map snd (emit (bus_run bus1 ops1) t p) = replicate (length (emit (bus_run bus1 ops1) t p)) p \<and>
         invocations fn (emit (bus_run (unsubscribe (bus_run bus1 ops1)) ops2) t q) = 0"
proof -
  have b1: "bus1 = fst (on bus t fn)" and un: "unsubscribe = (\<lambda>b. off b t fn)"
    using assms(2) by (simp_all add: on_def Let_def)
  let ?b = "bus_run bus1 ops1"
  have ok: "bus_ok ?b"
    using assms(1) by (simp add: b1 bus_ok_on bus_ok_run)
  have sub: "subscribed ?b t fn"
    using assms(3) by (simp add: b1 subscribed_on subscribed_run_keeps)
  have ok2: "bus_ok (bus_run (unsubscribe ?b) ops2)"
    using ok by (simp add: un bus_ok_off bus_ok_run)
  have out: "\<not> subscribed (bus_run (unsubscribe ?b) ops2) t fn"
    using ok assms(4) by (simp add: un subscribed_off subscribed_run_stays_out)
  show ?thesis
    using sub out by (simp add: invocations_emit [OF ok] invocations_emit [OF ok2]
        emit_payload emit_payload_only)
qed

theorem CommandBus_roundtrip_witness:
  "invocations 1 (emit (bus_run (fst (on new_CommandBus ''MOVE_SELECTED_TO'' 1))
        [On ''MOVE_SELECTED_TO'' 2, On ''MOVE_SELECTED_TO'' 1, Off ''OTHER'' 1])
        ''MOVE_SELECTED_TO'' (Vector3 10 0 10)) = 1 \<and>
   invocations 1 (emit (bus_run
        (snd (on new_CommandBus ''MOVE_SELECTED_TO'' 1)
           (bus_run (fst (on new_CommandBus ''MOVE_SELECTED_TO'' 1))
              [On ''MOVE_SELECTED_TO'' 2, On ''MOVE_SELECTED_TO'' 1, Off ''OTHER'' 1]))
        [Off ''MOVE_SELECTED_TO'' 2, On ''OTHER'' 1])
        ''MOVE_SELECTED_TO'' (Vector3 10 0 10)) = 0"
proof -
  let ?t = "''MOVE_SELECTED_TO''"
  let ?ops1 = "[On ?t 2, On ?t 1, Off ''OTHER'' 1]"
  let ?ops2 = "[Off ?t 2, On ''OTHER'' 1]"
  have h1: "bus_ok (new_CommandBus :: string CommandBus)" by (rule bus_ok_new)
  have h2: "on new_CommandBus ?t 1 = (fst (on new_CommandBus ?t 1), snd (on new_CommandBus ?t 1))"
    by simp
  have h3: "Off ?t 1 \<notin> set ?ops1" by simp
  have h4: "On ?t 1 \<notin> set ?ops2" by simp
  from CommandBus_roundtrip [OF h1 h2 h3 h4, of "Vector3 10 0 10" "Vector3 10 0 10"]
  show ?thesis by blast
qed

subsection \<open>Formation spacing\<close>

text \<open>Bounds on \<open>\<pi>\<close> and \<open>\<surd>5\<close>, and the cosines of the first four multiples of the golden angle.\<close>

lemma arctan_le_self: assumes "0 \<le> x" shows "arctan x \<le> x"
proof -
  have d: "\<exists>y. DERIV (\<lambda>t. t - arctan t) t :> y \<and> 0 \<le> y" for t :: real
  proof -
    have "DERIV (\<lambda>t. t - arctan t) t :> 1 - inverse (1 + t\<^sup>2)"
      by (auto intro!: derivative_eq_intros)
    moreover have "0 \<le> 1 - inverse (1 + t\<^sup>2)"
    proof -
      have "1 \<le> 1 + t\<^sup>2" by simp
      then have "inverse (1 + t\<^sup>2) \<le> 1" by (simp add: inverse_le_1_iff)
      then show ?thesis by simp
    qed
    ultimately show ?thesis by blast
  qed
  have "(\<lambda>t. t - arctan t) 0 \<le> (\<lambda>t. t - arctan t) x"
    by (rule DERIV_nonneg_imp_nondecreasing [OF assms]) (rule d)
  then show ?thesis by simp
qed

lemma pi_less_16_5: "pi < 16 / 5"
proof -
  have "arctan (1 / 5) \<le> 1 / 5" by (rule arctan_le_self) simp
  moreover have "0 < arctan (1 / 239)" by simp
  ultimately show ?thesis using machin by linarith
qed

lemma pi_ge_3: "3 \<le> pi"
proof -
  have "sin (pi / 6) \<le> pi / 6" by (rule sin_x_le_x) simp
  then show ?thesis by (simp add: sin_30)
qed

lemma sqrt5_bounds: "559 / 250 \<le> sqrt 5" "sqrt 5 \<le> 9 / 4"
  by (rule real_le_rsqrt, simp add: power2_eq_square)
     (rule real_le_lsqrt, simp_all add: power2_eq_square)

lemma cos_golden1: "cos goldenAngle \<le> - 1 / 2"
proof -
  have "pi * (2 / 3) \<le> pi * (3 - sqrt 5)"
    using sqrt5_bounds(2) by (intro mult_left_mono) simp_all
  moreover have "pi * (3 - sqrt 5) \<le> pi * 1"
    using sqrt5_bounds(1) by (intro mult_left_mono) simp_all
  ultimately have "cos goldenAngle \<le> cos (2 * pi / 3)"
    unfolding goldenAngle_def by (intro cos_monotone_0_pi_le) simp_all
  then show ?thesis by (simp add: cos_120)
qed

lemma cos_golden2: "0 < cos (2 * goldenAngle)" "cos (2 * goldenAngle) \<le> 1 / 8"
proof -
  define x where "x = pi * (2 * sqrt 5 - 4)"
  have g: "2 * goldenAngle = 2 * pi - x"
    by (simp add: goldenAngle_def x_def algebra_simps)
  have c: "cos (2 * goldenAngle) = cos x"
    unfolding g by (rule cos_2pi_minus)
  have lo: "pi * (59 / 125) \<le> x"
    unfolding x_def using sqrt5_bounds(1) by (intro mult_left_mono) simp_all
  have hi: "x \<le> pi * (1 / 2)"
    unfolding x_def using sqrt5_bounds(2) by (intro mult_left_mono) simp_all
  have hi': "x < pi / 2"
  proof -
    have "sqrt 5 < 9 / 4"
      by (rule real_less_lsqrt) (simp_all add: power2_eq_square)
    then have "pi * (2 * sqrt 5 - 4) < pi * (1 / 2)"
      by (intro mult_strict_left_mono) simp_all
    then show ?thesis by (simp add: x_def)
  qed
  have "0 < pi * (59 / 125)" by simp
  with lo have pos: "0 < x" by linarith
  show "0 < cos (2 * goldenAngle)"
    unfolding c using pos hi' by (rule cos_gt_zero)
  have "cos x = sin (pi / 2 - x)" using cos_sin_eq [of x] by simp
  also have "\<dots> \<le> pi / 2 - x" using hi by (intro sin_x_le_x) simp
  also have "\<dots> \<le> pi * (1 / 2 - 59 / 125)" using lo by (simp add: algebra_simps)
  also have "\<dots> \<le> (16 / 5) * (1 / 2 - 59 / 125)"
    using pi_less_16_5 by (intro mult_right_mono) simp_all
  also have "\<dots> \<le> 1 / 8" by simp
  finally show "cos (2 * goldenAngle) \<le> 1 / 8" unfolding c .
qed

lemma cos_golden3: "cos (3 * goldenAngle) \<le> sqrt 2 / 2"
proof -
  define x where "x = pi * (7 - 3 * sqrt 5)"
  have g: "3 * goldenAngle = x + 2 * pi"
    by (simp add: goldenAngle_def x_def algebra_simps)
  have c: "cos (3 * goldenAngle) = cos x"
    unfolding g by (rule cos_periodic)
  have lo: "pi * (1 / 4) \<le> x"
    unfolding x_def using sqrt5_bounds(2) by (intro mult_left_mono) simp_all
  have hi: "x \<le> pi * 1"
    unfolding x_def using sqrt5_bounds(1) by (intro mult_left_mono) simp_all
  have "cos x \<le> cos (pi / 4)"
    using lo hi by (intro cos_monotone_0_pi_le) simp_all
  then show ?thesis by (simp add: c cos_45)
qed

lemma cos_golden4: "cos (4 * goldenAngle) \<le> 0"
proof -
  define y where "y = pi * (9 - 4 * sqrt 5)"
  have g: "4 * goldenAngle = (y + pi) + 2 * pi"
    by (simp add: goldenAngle_def y_def algebra_simps)
  have "cos ((y + pi) + 2 * pi) = cos (y + pi)" by (rule cos_periodic)
  also have "\<dots> = - cos y" by (rule cos_periodic_pi)
  finally have c: "cos (4 * goldenAngle) = - cos y"
    unfolding g .
  have lo: "pi * 0 \<le> y"
    unfolding y_def using sqrt5_bounds(2) by (intro mult_left_mono) simp_all
  have hi: "y \<le> pi * (1 / 2)"
    unfolding y_def using sqrt5_bounds(1) by (intro mult_left_mono) simp_all
  have "0 \<le> cos y"
    using lo hi by (intro cos_ge_zero) simp_all
  then show ?thesis by (simp add: c)
qed

lemma sunflowerOffsets_nth:
  "k < n \<Longrightarrow> sunflowerOffsets n S ! k =
     Offset (S / sqrt pi * sqrt (real k + 1 / 2) * cos (real k * goldenAngle))
            (S / sqrt pi * sqrt (real k + 1 / 2) * sin (real k * goldenAngle))"
  by (simp add: sunflowerOffsets_def Let_def)

lemma diff_squares_expand:
  fixes r1 r2 c1 s1 c2 s2 :: real
  shows "(r1 * c1 - r2 * c2)\<^sup>2 + (r1 * s1 - r2 * s2)\<^sup>2
     = r1\<^sup>2 * (s1\<^sup>2 + c1\<^sup>2) + r2\<^sup>2 * (s2\<^sup>2 + c2\<^sup>2) - 2 * r1 * r2 * (c2 * c1 + s2 * s1)"
  by (simp add: power2_eq_square algebra_simps)

lemma scaled_squares:
  fixes r c s :: real
  shows "(r * c)\<^sup>2 + (r * s)\<^sup>2 = r\<^sup>2 * (s\<^sup>2 + c\<^sup>2)"
  by (simp add: power2_eq_square algebra_simps)

lemma polar_dist_sq:
  fixes r1 r2 t1 t2 :: real
  shows "(r1 * cos t1 - r2 * cos t2)\<^sup>2 + (r1 * sin t1 - r2 * sin t2)\<^sup>2
     = r1\<^sup>2 + r2\<^sup>2 - 2 * r1 * r2 * cos (t2 - t1)"
  unfolding diff_squares_expand cos_diff by simp

text \<open>The squared distance between two offsets of the spiral.\<close>

lemma sunflower_dist_sq:
  assumes "i < n" "j < n"
  shows "(offset_dist (sunflowerOffsets n S ! i) (sunflowerOffsets n S ! j))\<^sup>2 =
           S\<^sup>2 / pi * ((real i + 1 / 2) + (real j + 1 / 2)
              - 2 * (sqrt (real i + 1 / 2) * sqrt (real j + 1 / 2))
                  * cos (real j * goldenAngle - real i * goldenAngle))"
proof -
  define c where "c = S / sqrt pi"
  define ri where "ri = c * sqrt (real i + 1 / 2)"
  define rj where "rj = c * sqrt (real j + 1 / 2)"
  have c2: "c\<^sup>2 = S\<^sup>2 / pi"
    by (simp add: c_def power_divide)
  have "(offset_dist (sunflowerOffsets n S ! i) (sunflowerOffsets n S ! j))\<^sup>2
      = (ri * cos (real i * goldenAngle) - rj * cos (real j * goldenAngle))\<^sup>2
        + (ri * sin (real i * goldenAngle) - rj * sin (real j * goldenAngle))\<^sup>2"
    using assms by (simp add: sunflowerOffsets_nth offset_dist_def ri_def rj_def c_def)
  also have "\<dots> = ri\<^sup>2 + rj\<^sup>2 - 2 * ri * rj * cos (real j * goldenAngle - real i * goldenAngle)"
    by (rule polar_dist_sq)
  also have "ri\<^sup>2 = c\<^sup>2 * (real i + 1 / 2)"
    by (simp add: ri_def power_mult_distrib)
  also have "rj\<^sup>2 = c\<^sup>2 * (real j + 1 / 2)"
    by (simp add: rj_def power_mult_distrib)
  also have "2 * ri * rj = c\<^sup>2 * (2 * (sqrt (real i + 1 / 2) * sqrt (real j + 1 / 2)))"
    by (simp add: ri_def rj_def power2_eq_square)
  finally have "(offset_dist (sunflowerOffsets n S ! i) (sunflowerOffsets n S ! j))\<^sup>2
      = c\<^sup>2 * ((real i + 1 / 2) + (real j + 1 / 2)
              - 2 * (sqrt (real i + 1 / 2) * sqrt (real j + 1 / 2))
                  * cos (real j * goldenAngle - real i * goldenAngle))"
    by (simp add: algebra_simps)
  then show ?thesis by (simp only: c2)
qed

lemma sunflower_norm:
  assumes "k < n" "0 \<le> S"
  shows "offset_norm (sunflowerOffsets n S ! k) = S / sqrt pi * sqrt (real k + 1 / 2)"
proof -
  define r where "r = S / sqrt pi * sqrt (real k + 1 / 2)"
  have r: "0 \<le> r" using assms(2) by (simp add: r_def)
  have "offset_norm (sunflowerOffsets n S ! k)
      = sqrt ((r * cos (real k * goldenAngle))\<^sup>2 + (r * sin (real k * goldenAngle))\<^sup>2)"
    using assms(1) by (simp add: sunflowerOffsets_nth offset_norm_def r_def)
  also have "(r * cos (real k * goldenAngle))\<^sup>2 + (r * sin (real k * goldenAngle))\<^sup>2
      = r\<^sup>2 * ((sin (real k * goldenAngle))\<^sup>2 + (cos (real k * goldenAngle))\<^sup>2)"
    by (rule scaled_squares)
  also have "\<dots> = r\<^sup>2" by simp
  finally have "offset_norm (sunflowerOffsets n S ! k) = \<bar>r\<bar>" by simp
  then have "offset_norm (sunflowerOffsets n S ! k) = r" using r by simp
  then show ?thesis by (simp only: r_def)
qed

text \<open>Bounds on the bracket \<open>a + b - 2 \<surd>a \<surd>b cos \<phi>\<close>.\<close>

lemma bracket_opposite:
  assumes "c \<le> - 1 / 2" "1 / 2 \<le> a" "1 / 2 \<le> b"
  shows "a + b + 1 / 2 \<le> a + b - 2 * (sqrt a * sqrt b) * c"
proof -
  have "sqrt (1 / 4) \<le> sqrt (a * b)"
  proof -
    have "1 / 2 * (1 / 2) \<le> a * b" using assms(2,3) by (intro mult_mono) simp_all
    then show ?thesis by simp
  qed
  then have h: "1 / 2 \<le> sqrt a * sqrt b"
    by (simp add: real_sqrt_mult real_sqrt_divide)
  have "1 / 2 * 1 \<le> (sqrt a * sqrt b) * (- 2 * c)"
    using h assms(1) by (intro mult_mono) simp_all
  then show ?thesis by simp
qed

lemma bracket_small:
  assumes "0 \<le> c" "c \<le> 1 / 8" "0 \<le> a" "0 \<le> b"
  shows "7 / 8 * (a + b) \<le> a + b - 2 * (sqrt a * sqrt b) * c"
proof -
  have "0 \<le> (sqrt a - sqrt b)\<^sup>2" by simp
  then have amgm: "2 * (sqrt a * sqrt b) \<le> a + b"
    using assms(3,4) by (simp add: power2_diff)
  have "2 * (sqrt a * sqrt b) * c \<le> (a + b) * (1 / 8)"
    using amgm assms by (intro mult_mono) simp_all
  then show ?thesis by simp
qed

lemma bracket_diagonal:
  assumes "c \<le> sqrt 2 / 2" "0 \<le> a" "0 \<le> b" "0 \<le> m" "2 * (a * b) \<le> m\<^sup>2"
  shows "a + b - m \<le> a + b - 2 * (sqrt a * sqrt b) * c"
proof -
  have "2 * (sqrt a * sqrt b) * c \<le> 2 * (sqrt a * sqrt b) * (sqrt 2 / 2)"
    using assms(1,2,3) by (intro mult_left_mono) simp_all
  also have "\<dots> = sqrt (2 * (a * b))"
    by (simp add: real_sqrt_mult)
  also have "\<dots> \<le> m"
    using assms(4,5) by (intro real_le_lsqrt) simp_all
  finally show ?thesis by simp
qed

lemma bracket_behind:
  assumes "c \<le> 0" "0 \<le> a" "0 \<le> b"
  shows "a + b \<le> a + b - 2 * (sqrt a * sqrt b) * c"
proof -
  have "2 * (sqrt a * sqrt b) * c \<le> 0"
    using assms by (intro mult_nonneg_nonpos) simp_all
  then show ?thesis by linarith
qed

lemma offset_dist_commute: "offset_dist a b = offset_dist b a"
  by (simp add: offset_dist_def power2_commute)

lemma offset_dist_nonneg: "0 \<le> offset_dist a b"
  by (simp add: offset_dist_def)

lemma formationSpacing_ge: "6 / 5 \<le> formationSpacing sel"
  by (simp add: formationSpacing_def Let_def)

text \<open>The bracket of the squared distance, for two of the first five offsets.\<close>

lemma bracket_five:
  assumes "i < j" "j < 5"
  shows "256 / 125 \<le> (real i + 1 / 2) + (real j + 1 / 2)
           - 2 * (sqrt (real i + 1 / 2) * sqrt (real j + 1 / 2))
               * cos (real j * goldenAngle - real i * goldenAngle)"
proof -
  define d where "d = j - i"
  define a where "a = real i + 1 / 2"
  define b where "b = real j + 1 / 2"
  define c where "c = cos (real j * goldenAngle - real i * goldenAngle)"
  have j: "j = i + d" using assms(1) by (simp add: d_def)
  have "real j * goldenAngle - real i * goldenAngle = real d * goldenAngle"
    by (simp add: j algebra_simps)
  then have c: "c = cos (real d * goldenAngle)" by (simp only: c_def)
  have ab: "1 / 2 \<le> a" "1 / 2 \<le> b" "0 \<le> a" "0 \<le> b" by (simp_all add: a_def b_def)
  have sum: "a + b = 2 * real i + real d + 1" by (simp add: a_def b_def j)
  define P where "P = 2 * (sqrt a * sqrt b) * c"
  consider "d = 1" | "d = 2" | "d = 3 \<and> i = 0" | "d = 3 \<and> i = 1" | "d = 4"
    using assms j by linarith
  then have "256 / 125 \<le> a + b - P"
  proof cases
    case 1
    then have "c \<le> - 1 / 2" using cos_golden1 by (simp add: c)
    from bracket_opposite [OF this ab(1,2)] have "a + b + 1 / 2 \<le> a + b - P"
      by (simp only: P_def)
    moreover have "2 \<le> a + b" using sum 1 by simp
    ultimately show ?thesis by linarith
  next
    case 2
    then have "0 \<le> c" "c \<le> 1 / 8"
      using cos_golden2 by (simp_all add: c)
    from bracket_small [OF this ab(3,4)] have "7 / 8 * (a + b) \<le> a + b - P"
      by (simp only: P_def)
    moreover have "3 \<le> a + b" using sum 2 by simp
    then have "21 / 8 \<le> 7 / 8 * (a + b)" by simp
    ultimately show ?thesis by linarith
  next
    case 3
    then have le: "c \<le> sqrt 2 / 2" using cos_golden3 by (simp add: c)
    have m: "2 * (a * b) \<le> (19 / 10)\<^sup>2"
      using 3 by (simp add: a_def b_def j power2_eq_square)
    have "(0::real) \<le> 19 / 10" by simp
    from bracket_diagonal [OF le ab(3,4) this m] have "a + b - 19 / 10 \<le> a + b - P"
      by (simp only: P_def)
    moreover have "a + b = 4" using sum 3 by simp
    ultimately show ?thesis by linarith
  next
    case 4
    then have le: "c \<le> sqrt 2 / 2" using cos_golden3 by (simp add: c)
    have m: "2 * (a * b) \<le> (37 / 10)\<^sup>2"
      using 4 by (simp add: a_def b_def j power2_eq_square)
    have "(0::real) \<le> 37 / 10" by simp
    from bracket_diagonal [OF le ab(3,4) this m] have "a + b - 37 / 10 \<le> a + b - P"
      by (simp only: P_def)
    moreover have "a + b = 6" using sum 4 by simp
    ultimately show ?thesis by linarith
  next
    case 5
    then have "c \<le> 0" using cos_golden4 by (simp add: c)
    from bracket_behind [OF this ab(3,4)] have "a + b \<le> a + b - P"
      by (simp only: P_def)
    moreover have "5 \<le> a + b" using sum 5 by simp
    ultimately show ?thesis by linarith
  qed
  then show ?thesis by (simp only: P_def a_def b_def c_def)
qed

lemma sunflower_spacing_ordered:
  assumes "0 \<le> S" "i < j" "j < 5"
  shows "4 / 5 * S \<le> offset_dist (sunflowerOffsets 5 S ! i) (sunflowerOffsets 5 S ! j)"
proof -
  let ?B = "(real i + 1 / 2) + (real j + 1 / 2)
           - 2 * (sqrt (real i + 1 / 2) * sqrt (real j + 1 / 2))
               * cos (real j * goldenAngle - real i * goldenAngle)"
  have i: "i < 5" using assms(2,3) by simp
  have "16 / 25 * pi \<le> 16 / 25 * (16 / 5)"
    using pi_less_16_5 by simp
  also have "\<dots> \<le> ?B" using bracket_five [OF assms(2,3)] by simp
  finally have "16 / 25 \<le> ?B / pi"
    by (simp add: pos_le_divide_eq)
  then have "S\<^sup>2 * (16 / 25) \<le> S\<^sup>2 * (?B / pi)"
    by (intro mult_left_mono) simp_all
  then have "(4 / 5 * S)\<^sup>2 \<le> S\<^sup>2 / pi * ?B"
    by (simp add: power_mult_distrib power2_eq_square)
  then have "(4 / 5 * S)\<^sup>2 \<le> (offset_dist (sunflowerOffsets 5 S ! i) (sunflowerOffsets 5 S ! j))\<^sup>2"
    by (simp only: sunflower_dist_sq [OF i assms(3)])
  then show ?thesis
    by (rule power2_le_imp_le) (rule offset_dist_nonneg)
qed

text \<open>
  C3, as the code has it. The scale of the spiral is the heuristic \<open>c = S / \<surd>\<pi>\<close>, which
  makes the spacing approximate. For 5 offsets and a spacing \<open>S > 0\<close> (the handler's
  spacing is at least 1.2): any two offsets are at least \<open>0.8 S\<close> apart; offset \<open>k\<close> lies
  at distance \<open>c \<surd>(k + 0.5)\<close> from the origin; and offset 0 is strictly nearer the
  origin than every other one.
\<close>

theorem sunflowerOffsets_spacing:
  assumes "0 < S"
  shows "(\<forall>i<5. \<forall>j<5. i \<noteq> j \<longrightarrow>
            4 / 5 * S \<le> offset_dist (sunflowerOffsets 5 S ! i) (sunflowerOffsets 5 S ! j)) \<and>
         (\<forall>k<5. offset_norm (sunflowerOffsets 5 S ! k) = S / sqrt pi * sqrt (real k + 1 / 2)) \<and>
         (\<forall>k<5. 0 < k \<longrightarrow>
            offset_norm (sunflowerOffsets 5 S ! 0) < offset_norm (sunflowerOffsets 5 S ! k))"
proof (intro conjI allI impI)
  fix i j :: nat
  assume "i < 5" "j < 5" "i \<noteq> j"
  then consider "i < j" | "j < i" by linarith
  then show "4 / 5 * S \<le> offset_dist (sunflowerOffsets 5 S ! i) (sunflowerOffsets 5 S ! j)"
  proof cases
    case 1
    with assms \<open>j < 5\<close> show ?thesis by (intro sunflower_spacing_ordered) simp_all
  next
    case 2
    with assms \<open>i < 5\<close>
    have "4 / 5 * S \<le> offset_dist (sunflowerOffsets 5 S ! j) (sunflowerOffsets 5 S ! i)"
      by (intro sunflower_spacing_ordered) simp_all
    then show ?thesis by (simp only: offset_dist_commute)
  qed
next
  fix k :: nat
  assume "k < 5"
  then show "offset_norm (sunflowerOffsets 5 S ! k) = S / sqrt pi * sqrt (real k + 1 / 2)"
    using assms by (intro sunflower_norm) simp_all
next
  fix k :: nat
  assume k: "k < 5" "0 < k"
  have c: "0 < S / sqrt pi" using assms by simp
  have "sqrt (real 0 + 1 / 2) < sqrt (real k + 1 / 2)" using k(2) by simp
  then have "S / sqrt pi * sqrt (real 0 + 1 / 2) < S / sqrt pi * sqrt (real k + 1 / 2)"
    using c by (rule mult_strict_left_mono)
  moreover have "offset_norm (sunflowerOffsets 5 S ! 0) = S / sqrt pi * sqrt (real 0 + 1 / 2)"
    using assms by (intro sunflower_norm) simp_all
  moreover have "offset_norm (sunflowerOffsets 5 S ! k) = S / sqrt pi * sqrt (real k + 1 / 2)"
    using assms k(1) by (intro sunflower_norm) simp_all
  ultimately show "offset_norm (sunflowerOffsets 5 S ! 0) < offset_norm (sunflowerOffsets 5 S ! k)"
    by simp
qed

theorem sunflowerOffsets_spacing_witness:
  "(0::real) < 2 \<and>
   4 / 5 * 2 \<le> offset_dist (sunflowerOffsets 5 2 ! 0) (sunflowerOffsets 5 2 ! 3) \<and>
   offset_norm (sunflowerOffsets 5 2 ! 0) < offset_norm (sunflowerOffsets 5 2 ! 4)"
proof -
  have h: "(0::real) < 2" by simp
  note t = sunflowerOffsets_spacing [OF h]
  have "4 / 5 * 2 \<le> offset_dist (sunflowerOffsets 5 2 ! 0) (sunflowerOffsets 5 2 ! 3)"
    by (rule t [THEN conjunct1, rule_format]) simp_all
  moreover have "offset_norm (sunflowerOffsets 5 2 ! 0) < offset_norm (sunflowerOffsets 5 2 ! 4)"
    by (rule t [THEN conjunct2, THEN conjunct2, rule_format]) simp_all
  ultimately show ?thesis using h by blast
qed

text \<open>
  C3, as stated, fails: for five units of the default radius the handler's spacing is
  \<open>S = 2\<close>, and the offsets 0 and 2 of the spiral are closer than 2.
\<close>

theorem sunflowerOffsets_closer_than_spacing:
  "formationSpacing (map (\<lambda>i. new_Unit i (Vector3 0 0 0)) [1, 2, 3, 4, 5]) = 2 \<and>
   offset_dist (sunflowerOffsets 5 2 ! 0) (sunflowerOffsets 5 2 ! 2) < 2"
proof
  show "formationSpacing (map (\<lambda>i. new_Unit i (Vector3 0 0 0)) [1, 2, 3, 4, 5]) = 2"
    by (simp add: formationSpacing_def new_Unit_def)
  define X where "X = 3 - 2 * (sqrt (1 / 2) * sqrt (5 / 2)) * cos (2 * goldenAngle)"
  have "0 < 2 * (sqrt (1 / 2 :: real) * sqrt (5 / 2)) * cos (2 * goldenAngle)"
    using cos_golden2(1) by (intro mult_pos_pos) simp_all
  then have "X < pi"
    unfolding X_def using pi_ge_3 by linarith
  then have "X / pi < 1" by simp
  then have "2\<^sup>2 * (X / pi) < 2\<^sup>2 * 1"
    by (intro mult_strict_left_mono) simp_all
  moreover have "(offset_dist (sunflowerOffsets 5 2 ! 0) (sunflowerOffsets 5 2 ! 2))\<^sup>2
      = 2\<^sup>2 / pi * X"
    using sunflower_dist_sq [of 0 5 2 2] by (simp add: X_def)
  ultimately have "(offset_dist (sunflowerOffsets 5 2 ! 0) (sunflowerOffsets 5 2 ! 2))\<^sup>2 < 2\<^sup>2"
    by simp
  then show "offset_dist (sunflowerOffsets 5 2 ! 0) (sunflowerOffsets 5 2 ! 2) < 2"
    by (rule power2_less_imp_less) simp
qed

end
